theory Spec2Isabelle
  imports Main "HOL-Library.Word"
begin

section \<open>Python values used by app.py\<close>

text \<open>
  A Python \<open>str\<close> is a sequence of Unicode code points, and \<open>len\<close>, slicing and
  \<open>endswith\<close> count code points; a \<open>bytes\<close> object is a sequence of octets.
  ASCII literals of the source are written through \<open>ascii\<close>, other characters
  by their code point.
\<close>

type_synonym str = "nat list"

type_synonym bytes = "8 word list"

definition ascii :: "string \<Rightarrow> str" where
  "ascii cs = map of_char cs"

text \<open>\<open>s.endswith(suffix)\<close>: a case-sensitive comparison of the last code points.\<close>

definition endswith :: "str \<Rightarrow> str \<Rightarrow> bool" where
  "endswith s suffix \<longleftrightarrow>
     length suffix \<le> length s \<and> drop (length s - length suffix) s = suffix"

text \<open>
  \<open>str.isspace\<close> on one code point: the characters Python treats as whitespace,
  which are the ones \<open>str.strip()\<close> without argument removes.
\<close>

definition isspace :: "nat \<Rightarrow> bool" where
  "isspace c \<longleftrightarrow>
     (0x09 \<le> c \<and> c \<le> 0x0D) \<or> (0x1C \<le> c \<and> c \<le> 0x20) \<or> c = 0x85 \<or> c = 0xA0 \<or>
     c = 0x1680 \<or> (0x2000 \<le> c \<and> c \<le> 0x200A) \<or> c = 0x2028 \<or> c = 0x2029 \<or>
     c = 0x202F \<or> c = 0x205F \<or> c = 0x3000"

definition lstrip :: "str \<Rightarrow> str" where
  "lstrip s = dropWhile isspace s"

definition rstrip :: "str \<Rightarrow> str" where
  "rstrip s = rev (dropWhile isspace (rev s))"

definition strip :: "str \<Rightarrow> str" where
  "strip s = rstrip (lstrip s)"

text \<open>\<open>s.replace(old, new)\<close> for one-character \<open>old\<close> and \<open>new\<close>.\<close>

definition replace_char :: "nat \<Rightarrow> nat \<Rightarrow> str \<Rightarrow> str" where
  "replace_char old new s = map (\<lambda>c. if c = old then new else c) s"

text \<open>\<open>str(n)\<close> for an integer: decimal digits, with a minus sign when negative.\<close>

fun str_nat :: "nat \<Rightarrow> str" where
  "str_nat n = (if n < 10 then [48 + n] else str_nat (n div 10) @ [48 + n mod 10])"

declare str_nat.simps [simp del]

definition str_int :: "int \<Rightarrow> str" where
  "str_int i = (if i < 0 then 45 # str_nat (nat (- i)) else str_nat (nat i))"

text \<open>The exceptions that escape from the code modelled here.\<close>

datatype exn = UnicodeDecodeError

subsection \<open>\<open>bytes.decode("utf-8")\<close>\<close>

text \<open>
  The strict decoder: a well-formed UTF-8 sequence gives the code points, anything
  else (a stray continuation byte, an overlong form, a surrogate, a value above
  \<open>0x10FFFF\<close>, a truncated sequence) raises \<open>UnicodeDecodeError\<close>.
\<close>

definition continuation :: "nat \<Rightarrow> bool" where
  "continuation b \<longleftrightarrow> 0x80 \<le> b \<and> b \<le> 0xBF"

definition second_of_three :: "nat \<Rightarrow> nat \<Rightarrow> bool" where
  "second_of_three b0 b1 \<longleftrightarrow>
     (if b0 = 0xE0 then 0xA0 \<le> b1 \<and> b1 \<le> 0xBF
      else if b0 = 0xED then 0x80 \<le> b1 \<and> b1 \<le> 0x9F
      else continuation b1)"

definition second_of_four :: "nat \<Rightarrow> nat \<Rightarrow> bool" where
  "second_of_four b0 b1 \<longleftrightarrow>
     (if b0 = 0xF0 then 0x90 \<le> b1 \<and> b1 \<le> 0xBF
      else if b0 = 0xF4 then 0x80 \<le> b1 \<and> b1 \<le> 0x8F
      else continuation b1)"

definition prepend :: "nat \<Rightarrow> exn + str \<Rightarrow> exn + str" where
  "prepend c r = (case r of Inl e \<Rightarrow> Inl e | Inr s \<Rightarrow> Inr (c # s))"

fun utf8_decode :: "nat list \<Rightarrow> exn + str" where
  "utf8_decode [] = Inr []"
| "utf8_decode (b0 # bs) =
     (if b0 < 0x80 then prepend b0 (utf8_decode bs)
      else if 0xC2 \<le> b0 \<and> b0 \<le> 0xDF then
        (case bs of
           b1 # rest \<Rightarrow>
             if continuation b1
             then prepend ((b0 - 0xC0) * 64 + (b1 - 0x80)) (utf8_decode rest)
             else Inl UnicodeDecodeError
         | _ \<Rightarrow> Inl UnicodeDecodeError)
      else if 0xE0 \<le> b0 \<and> b0 \<le> 0xEF then
        (case bs of
           b1 # b2 # rest \<Rightarrow>
             if second_of_three b0 b1 \<and> continuation b2
             then prepend ((b0 - 0xE0) * 4096 + (b1 - 0x80) * 64 + (b2 - 0x80))
                    (utf8_decode rest)
             else Inl UnicodeDecodeError
         | _ \<Rightarrow> Inl UnicodeDecodeError)
      else if 0xF0 \<le> b0 \<and> b0 \<le> 0xF4 then
        (case bs of
           b1 # b2 # b3 # rest \<Rightarrow>
             if second_of_four b0 b1 \<and> continuation b2 \<and> continuation b3
             then prepend ((b0 - 0xF0) * 262144 + (b1 - 0x80) * 4096 + (b2 - 0x80) * 64
                             + (b3 - 0x80))
                    (utf8_decode rest)
             else Inl UnicodeDecodeError
         | _ \<Rightarrow> Inl UnicodeDecodeError)
      else Inl UnicodeDecodeError)"

definition decode_utf8 :: "bytes \<Rightarrow> exn + str" where
  "decode_utf8 bs = utf8_decode (map unat bs)"

subsection \<open>\<open>datetime.date\<close>\<close>

text \<open>
  A date of the proleptic Gregorian calendar. \<open>toordinal\<close> numbers the days from
  0001-01-01 (day 1); subtracting two dates gives a \<open>timedelta\<close> whose \<open>days\<close> is
  the difference of the ordinals; \<open>str\<close> of a date is its ISO form \<open>YYYY-MM-DD\<close>.
\<close>

record date =
  year :: int
  month :: int
  day :: int

record timedelta =
  days :: int

definition is_leap :: "int \<Rightarrow> bool" where
  "is_leap y \<longleftrightarrow> y mod 4 = 0 \<and> (y mod 100 \<noteq> 0 \<or> y mod 400 = 0)"

definition days_in_month :: "int \<Rightarrow> int \<Rightarrow> int" where
  "days_in_month y m =
     (if m = 2 then (if is_leap y then 29 else 28)
      else if m = 4 \<or> m = 6 \<or> m = 9 \<or> m = 11 then 30 else 31)"

definition valid_date :: "date \<Rightarrow> bool" where
  "valid_date d \<longleftrightarrow>
     1 \<le> year d \<and> year d \<le> 9999 \<and> 1 \<le> month d \<and> month d \<le> 12 \<and>
     1 \<le> day d \<and> day d \<le> days_in_month (year d) (month d)"

definition days_before_year :: "int \<Rightarrow> int" where
  "days_before_year yr = (let y = yr - 1 in y * 365 + y div 4 - y div 100 + y div 400)"

definition DAYS_IN_MONTH :: "int list" where
  "DAYS_IN_MONTH = [31, 28, 31, 30, 31, 30, 31, 31, 30, 31, 30, 31]"

definition days_before_month :: "int \<Rightarrow> int \<Rightarrow> int" where
  "days_before_month y m =
     sum_list (take (nat (m - 1)) DAYS_IN_MONTH) + (if m > 2 \<and> is_leap y then 1 else 0)"

definition toordinal :: "date \<Rightarrow> int" where
  "toordinal d = days_before_year (year d) + days_before_month (year d) (month d) + day d"

definition date_sub :: "date \<Rightarrow> date \<Rightarrow> timedelta" where
  "date_sub d1 d2 = \<lparr>days = toordinal d1 - toordinal d2\<rparr>"

text \<open>The calendar order of two dates: by year, then month, then day.\<close>

definition date_before :: "date \<Rightarrow> date \<Rightarrow> bool" where
  "date_before a b \<longleftrightarrow>
     year a < year b
     \<or> (year a = year b \<and> (month a < month b \<or> (month a = month b \<and> day a < day b)))"

definition zfill :: "nat \<Rightarrow> str \<Rightarrow> str" where
  "zfill w s = replicate (w - length s) 48 @ s"

definition str_date :: "date \<Rightarrow> str" where
  "str_date d =
     zfill 4 (str_nat (nat (year d))) @ [45] @ zfill 2 (str_nat (nat (month d))) @ [45]
       @ zfill 2 (str_nat (nat (day d)))"

section \<open>The outside world of app.py\<close>

text \<open>
  An uploaded file (Streamlit's \<open>UploadedFile\<close>) has a name and its bytes,
  read by \<open>getvalue()\<close>.
\<close>

record UploadedFile =
  name :: str
  getvalue :: bytes

text \<open>
  What pdfplumber does is not in the repository, so it is a parameter. A call that
  raises an \<open>Exception\<close> \<open>e\<close> is \<open>Inl m\<close> with \<open>m = str(e)\<close>.
  \<open>page.extract_text()\<close> returns a string or \<open>None\<close>, or raises.
\<close>

record page =
  extract_text :: "str + str option"

record pdf =
  pages :: "page list"

text \<open>The dictionary passed to \<open>crew.kickoff(inputs=...)\<close>, one field per key.\<close>

record kickoff_inputs =
  subject :: str
  deadline :: str
  current_date :: str
  days_left :: str
  syllabus_text :: str

text \<open>
  The environment of a run: \<open>datetime.date.today()\<close>, \<open>pdfplumber.open\<close>, and
  \<open>crew.kickoff\<close>, which returns \<open>result.raw\<close> or raises.
\<close>

record env =
  today :: date
  pdfplumber_open :: "UploadedFile \<Rightarrow> str + pdf"
  kickoff :: "kickoff_inputs \<Rightarrow> str + str"

text \<open>The form of the sidebar: subject, deadline date and the optional upload.\<close>

record form =
  sub :: str
  date :: date
  uploaded_file :: "UploadedFile option"

text \<open>
  The effects of a run, in the order they happen: reads of the uploaded file, the LLM
  call, and what is shown on the page.
\<close>

datatype metric_value = IntValue int | StrValue str

datatype event =
    PdfplumberOpen UploadedFile
  | GetValue UploadedFile
  | Kickoff kickoff_inputs
  | SidebarError str
  | SidebarSuccess str
  | StError str
  | StSuccess str
  | Spinner str
  | Metric str metric_value
  | Markdown str
  | DownloadButton str str str str

section \<open>extract_text_from_file\<close>

text \<open>
  The loop over \<open>pdf.pages\<close> with the accumulator \<open>text\<close>. When a page raises, the
  loop is left with the text accumulated so far and the exception's message.
\<close>

fun pages_loop :: "page list \<Rightarrow> str \<Rightarrow> str \<times> str option" where
  "pages_loop [] text = (text, None)"
| "pages_loop (p # ps) text =
     (case extract_text p of
        Inl e \<Rightarrow> (text, Some e)
      | Inr page_text \<Rightarrow>
          (case page_text of
             None \<Rightarrow> pages_loop ps text
           | Some t \<Rightarrow> if t \<noteq> [] then pages_loop ps (text @ t @ [10]) else pages_loop ps text))"

text \<open>
  The result is the events and either the returned text or the exception that
  escapes. Exceptions of the PDF branch are caught and reported with \<open>st.error\<close>;
  the \<open>decode\<close> of the text branch is outside any \<open>try\<close>.
\<close>

definition extract_text_from_file ::
    "env \<Rightarrow> UploadedFile option \<Rightarrow> event list \<times> (exn + str)" where
  "extract_text_from_file e uploaded =
     (case uploaded of
        None \<Rightarrow> ([], Inr [])
      | Some f \<Rightarrow>
          if endswith (name f) (ascii ''.pdf'') then
            (case pdfplumber_open e f of
               Inl m \<Rightarrow>
                 ([PdfplumberOpen f, StError (ascii ''Error reading PDF: '' @ m)], Inr [])
             | Inr doc \<Rightarrow>
                 (case pages_loop (pages doc) [] of
                    (text, None) \<Rightarrow> ([PdfplumberOpen f], Inr text)
                  | (text, Some m) \<Rightarrow>
                      ([PdfplumberOpen f, StError (ascii ''Error reading PDF: '' @ m)],
                       Inr text)))
          else if endswith (name f) (ascii ''.txt'') then
            ([GetValue f], decode_utf8 (getvalue f))
          else ([], Inr []))"

section \<open>The submit handler\<close>

definition DEADLINE_ERROR :: str where
  "DEADLINE_ERROR = 0x274C # ascii '' Please select a deadline in the future!''"

definition NO_SYLLABUS :: str where
  "NO_SYLLABUS = ascii
     ''No syllabus provided. Please generate a standard comprehensive curriculum based on the subject name.''"

definition SYLLABUS_LOADED :: str where
  "SYLLABUS_LOADED = 0x1F4C4 # ascii '' Syllabus successfully loaded!''"

definition spinner_text :: "int \<Rightarrow> str" where
  "spinner_text days_remaining =
     0x1F916 # ascii '' AI is analyzing the curriculum and calculating a ''
       @ str_int days_remaining @ ascii ''-day schedule...''"

text \<open>What is displayed once \<open>kickoff\<close> has returned \<open>result\<close>.\<close>

definition display_results :: "str \<Rightarrow> int \<Rightarrow> str \<Rightarrow> event list" where
  "display_results sb days_remaining raw =
     [StSuccess (0x1F389 # ascii '' Your Personalized Study Roadmap is Ready!''),
      Metric (ascii ''Total Days'') (IntValue days_remaining),
      Metric (ascii ''Subject'') (StrValue sb),
      Metric (ascii ''Status'') (StrValue (ascii ''Optimized '' @ [0x1F680])),
      Markdown (ascii ''### '' @ [0x1F4C5] @ ascii '' Daily Schedule''),
      Markdown raw,
      DownloadButton (0x1F4E5 # ascii '' Download Plan (Markdown)'') raw
        (replace_char 32 95 sb @ ascii ''_study_plan.md'') (ascii ''text/markdown'')]"

text \<open>
  The body of \<open>if submit:\<close>. An exception of \<open>extract_text_from_file\<close> is not caught
  and ends the run; one of \<open>kickoff\<close> is caught and reported.
\<close>

definition submit_handler :: "env \<Rightarrow> form \<Rightarrow> event list \<times> (exn + unit)" where
  "submit_handler e fm =
     (let days_remaining = days (date_sub (date fm) (today e)) in
      if days_remaining \<le> 0 then ([SidebarError DEADLINE_ERROR], Inr ())
      else
        (case extract_text_from_file e (uploaded_file fm) of
           (evs, Inl x) \<Rightarrow> (evs, Inl x)
         | (evs, Inr text) \<Rightarrow>
             (let loaded = (strip text \<noteq> []);
                  syllabus_content = (if loaded then take 15000 text else NO_SYLLABUS);
                  inputs = \<lparr>subject = sub fm,
                            deadline = str_date (date fm),
                            current_date = str_date (today e),
                            days_left = str_int days_remaining,
                            syllabus_text = syllabus_content\<rparr>
              in (evs @ (if loaded then [SidebarSuccess SYLLABUS_LOADED] else [])
                    @ [Spinner (spinner_text days_remaining), Kickoff inputs]
                    @ (case kickoff e inputs of
                         Inl m \<Rightarrow> [StError (ascii ''Error during generation: '' @ m)]
                       | Inr raw \<Rightarrow> display_results (sub fm) days_remaining raw),
                  Inr ()))))"

subsection \<open>Reading a trace\<close>

fun llm_calls :: "event list \<Rightarrow> kickoff_inputs list" where
  "llm_calls [] = []"
| "llm_calls (Kickoff i # evs) = i # llm_calls evs"
| "llm_calls (_ # evs) = llm_calls evs"

fun reads_file :: "event \<Rightarrow> bool" where
  "reads_file (PdfplumberOpen _) = True"
| "reads_file (GetValue _) = True"
| "reads_file _ = False"

subsection \<open>Notions used to state the properties\<close>

text \<open>
  A page whose \<open>extract_text()\<close> returned (did not raise), the line a page
  contributes (its text and a newline; nothing when the text is \<open>None\<close> or empty),
  and the concatenation of the lines of a list of pages.
\<close>

definition returned :: "page \<Rightarrow> bool" where
  "returned p = (case extract_text p of Inl _ \<Rightarrow> False | Inr _ \<Rightarrow> True)"

definition page_line :: "page \<Rightarrow> str" where
  "page_line p =
     (case extract_text p of
        Inr (Some t) \<Rightarrow> if t \<noteq> [] then t @ [10] else []
      | _ \<Rightarrow> [])"

definition joined_text :: "page list \<Rightarrow> str" where
  "joined_text ps = concat (map page_line ps)"

definition first_error :: "page list \<Rightarrow> str option" where
  "first_error ps =
     (case dropWhile returned ps of
        [] \<Rightarrow> None
      | p # _ \<Rightarrow> (case extract_text p of Inl m \<Rightarrow> Some m | Inr _ \<Rightarrow> None))"

text \<open>The inputs of the one LLM call of a run, for a given syllabus content.\<close>

definition plan_inputs :: "env \<Rightarrow> form \<Rightarrow> str \<Rightarrow> kickoff_inputs" where
  "plan_inputs e fm content =
     \<lparr>subject = sub fm, deadline = str_date (date fm), current_date = str_date (today e),
      days_left = str_int (toordinal (date fm) - toordinal (today e)),
      syllabus_text = content\<rparr>"

subsection \<open>Example runs\<close>

definition today_ex :: date where
  "today_ex = \<lparr>year = 2026, month = 11, day = 4\<rparr>"

definition pdf_ex :: pdf where
  "pdf_ex = \<lparr>pages = [\<lparr>extract_text = Inr (Some (ascii ''Unit 1''))\<rparr>,
                      \<lparr>extract_text = Inl (ascii ''bad page'')\<rparr>,
                      \<lparr>extract_text = Inr (Some (ascii ''Unit 3''))\<rparr>]\<rparr>"

definition env_ex :: env where
  "env_ex = \<lparr>today = today_ex, pdfplumber_open = (\<lambda>f. Inr pdf_ex),
             kickoff = (\<lambda>i. Inr (ascii ''| Day | Date |''))\<rparr>"

definition long_pdf_ex :: pdf where
  "long_pdf_ex = \<lparr>pages = [\<lparr>extract_text = Inr (Some (replicate 20000 97))\<rparr>]\<rparr>"

definition long_env_ex :: env where
  "long_env_ex = \<lparr>today = today_ex, pdfplumber_open = (\<lambda>f. Inr long_pdf_ex),
                  kickoff = (\<lambda>i. Inl (ascii ''quota exceeded''))\<rparr>"

definition txt_ex :: UploadedFile where
  "txt_ex = \<lparr>name = ascii ''notes.txt'', getvalue = [0x68, 0x69, 0xC3, 0xA9]\<rparr>"

definition blank_txt_ex :: UploadedFile where
  "blank_txt_ex = \<lparr>name = ascii ''blank.txt'', getvalue = [0x20, 0x0A, 0x09]\<rparr>"

definition bad_txt_ex :: UploadedFile where
  "bad_txt_ex = \<lparr>name = ascii ''notes.txt'', getvalue = [0xFF]\<rparr>"

definition latin1_txt_ex :: UploadedFile where
  "latin1_txt_ex = \<lparr>name = ascii ''cafe.txt'', getvalue = [0x63, 0x61, 0x66, 0xE9]\<rparr>"

definition pdf_file_ex :: UploadedFile where
  "pdf_file_ex = \<lparr>name = ascii ''syllabus.pdf'', getvalue = [0x25, 0x50, 0x44, 0x46]\<rparr>"

definition upper_pdf_ex :: UploadedFile where
  "upper_pdf_ex = \<lparr>name = ascii ''SYLLABUS.PDF'', getvalue = [0x25, 0x50, 0x44, 0x46]\<rparr>"

definition deadline_ex :: date where
  "deadline_ex = \<lparr>year = 2026, month = 12, day = 25\<rparr>"

definition future_form_ex :: form where
  "future_form_ex = \<lparr>sub = ascii ''Machine Learning'', date = deadline_ex, uploaded_file = None\<rparr>"

definition same_day_form_ex :: form where
  "same_day_form_ex = \<lparr>sub = ascii ''Machine Learning'', date = today_ex, uploaded_file = None\<rparr>"

definition pdf_form_ex :: form where
  "pdf_form_ex =
     \<lparr>sub = ascii ''Machine Learning'', date = deadline_ex, uploaded_file = Some pdf_file_ex\<rparr>"

definition blank_form_ex :: form where
  "blank_form_ex =
     \<lparr>sub = ascii ''Machine Learning'', date = deadline_ex, uploaded_file = Some blank_txt_ex\<rparr>"

definition bad_form_ex :: form where
  "bad_form_ex =
     \<lparr>sub = ascii ''Machine Learning'', date = deadline_ex, uploaded_file = Some bad_txt_ex\<rparr>"

section \<open>Auxiliary facts\<close>

lemma endswith_same_length:
  "endswith s a \<Longrightarrow> endswith s b \<Longrightarrow> length a = length b \<Longrightarrow> a = b"
  by (simp add: endswith_def)

lemma txt_not_pdf: "endswith s (ascii ''.txt'') \<Longrightarrow> \<not> endswith s (ascii ''.pdf'')"
proof
  assume "endswith s (ascii ''.txt'')" "endswith s (ascii ''.pdf'')"
  then have "ascii ''.txt'' = ascii ''.pdf''"
    by (rule endswith_same_length) (simp add: ascii_def)
  then show False by (simp add: ascii_def)
qed

lemma pages_loop_acc:
  "pages_loop ps acc = (acc @ joined_text (takeWhile returned ps), first_error ps)"
proof (induction ps arbitrary: acc)
  case Nil
  show ?case by (simp add: joined_text_def first_error_def)
next
  case (Cons p ps)
  show ?case
  proof (cases "extract_text p")
    case (Inl m)
    then show ?thesis by (simp add: joined_text_def first_error_def returned_def)
  next
    case (Inr page_text)
    then show ?thesis
      by (cases page_text)
        (simp_all add: Cons.IH joined_text_def first_error_def returned_def page_line_def)
  qed
qed

lemma strip_empty_iff: "strip s = [] \<longleftrightarrow> (\<forall>c \<in> set s. isspace c)"
proof
  assume "strip s = []"
  then have "\<forall>c \<in> set (dropWhile isspace s). isspace c"
    by (simp add: strip_def rstrip_def lstrip_def)
  then have "dropWhile isspace s = []"
    by (metis hd_dropWhile list.set_sel(1))
  then show "\<forall>c \<in> set s. isspace c" by simp
next
  assume "\<forall>c \<in> set s. isspace c"
  then have d: "dropWhile isspace s = []" by simp
  show "strip s = []" unfolding strip_def rstrip_def lstrip_def d by simp
qed

lemma llm_calls_append: "llm_calls (a @ b) = llm_calls a @ llm_calls b"
  by (induction a rule: llm_calls.induct) simp_all

lemma llm_calls_extract: "llm_calls (fst (extract_text_from_file e u)) = []"
  by (simp add: extract_text_from_file_def split: option.split sum.split prod.split)

lemma no_sidebar_error_extract: "SidebarError m \<notin> set (fst (extract_text_from_file e u))"
  by (simp add: extract_text_from_file_def split: option.split sum.split prod.split)

lemma llm_calls_display: "llm_calls (display_results s d r) = []"
  by (simp add: display_results_def)

lemma days_date_sub: "days (date_sub d t) = toordinal d - toordinal t"
  by (simp add: date_sub_def)

subsection \<open>The ordinal of a date follows the calendar\<close>

text \<open>
  For valid dates, one date has the smaller ordinal exactly when it comes first in the
  calendar. So \<open>(date - today).days > 0\<close> says that the deadline is a later day
  than today.
\<close>

lemma div_step:
  assumes "0 < (k::int)"
  shows "y div k = (y - 1) div k + (if y mod k = 0 then 1 else 0)"
proof -
  define q r where "q = (y - 1) div k" and "r = (y - 1) mod k"
  have "y - 1 = k * q + r"
    unfolding q_def r_def by simp
  then have eq: "y = k * q + (r + 1)"
    by simp
  have r: "0 \<le> r" "r < k"
    using assms by (simp_all add: r_def)
  show ?thesis
  proof (cases "r + 1 = k")
    case True
    with eq have y: "y = k * (q + 1) + 0"
      by (simp add: algebra_simps)
    from assms have "y div k = q + 1"
      by (subst y) simp
    moreover from assms have "y mod k = 0"
      by (subst y) simp
    ultimately show ?thesis
      by (simp add: q_def)
  next
    case False
    with r have lt: "r + 1 < k" by simp
    from r have nn: "0 \<le> r + 1" by simp
    from eq nn lt have "y div k = q"
      by (rule int_div_pos_eq)
    moreover from eq nn lt have "y mod k = r + 1"
      by (rule int_mod_pos_eq)
    ultimately show ?thesis
      using r by (simp add: q_def)
  qed
qed

lemma mod_of_multiple:
  assumes "y mod (c * d) = 0"
  shows "(y::int) mod c = 0"
proof -
  from assms have "c * d dvd y"
    by (rule mod_0_imp_dvd)
  then obtain k where "y = c * d * k"
    by (rule dvdE)
  then have "y = c * (d * k)"
    by (simp only: mult.assoc)
  then show ?thesis
    by (simp only: mod_mult_self1_is_0)
qed

lemma leap_step:
  "(if y mod 4 = 0 then 1 else 0) - (if y mod 100 = 0 then 1 else 0)
     + (if y mod 400 = 0 then 1 else 0) = (if is_leap y then (1::int) else 0)"
proof -
  have a: "y mod 100 = 0" if "y mod 400 = 0"
    using mod_of_multiple [of y 100 4] that by simp
  have b: "y mod 4 = 0" if "y mod 100 = 0"
    using mod_of_multiple [of y 4 25] that by simp
  show ?thesis
  proof (cases "y mod 400 = 0")
    case True
    with a have "y mod 100 = 0" by simp
    with b have "y mod 4 = 0" by simp
    with True \<open>y mod 100 = 0\<close> show ?thesis
      by (simp add: is_leap_def)
  next
    case n400: False
    show ?thesis
    proof (cases "y mod 100 = 0")
      case True
      with b have "y mod 4 = 0" by simp
      with True n400 show ?thesis
        by (simp add: is_leap_def)
    next
      case False
      with n400 show ?thesis
        by (simp add: is_leap_def)
    qed
  qed
qed

lemma days_before_year_step:
  "days_before_year (y + 1) = days_before_year y + 365 + (if is_leap y then 1 else 0)"
proof -
  define p4 p100 p400 where "p4 = (y - 1) div 4" and "p100 = (y - 1) div 100"
    and "p400 = (y - 1) div 400"
  define i4 i100 i400 :: int where "i4 = (if y mod 4 = 0 then 1 else 0)"
    and "i100 = (if y mod 100 = 0 then 1 else 0)" and "i400 = (if y mod 400 = 0 then 1 else 0)"
  have a: "y div 4 = p4 + i4"
    unfolding p4_def i4_def by (rule div_step) simp
  have b: "y div 100 = p100 + i100"
    unfolding p100_def i100_def by (rule div_step) simp
  have c: "y div 400 = p400 + i400"
    unfolding p400_def i400_def by (rule div_step) simp
  have l: "i4 - i100 + i400 = (if is_leap y then 1 else 0)"
    unfolding i4_def i100_def i400_def by (rule leap_step)
  have "days_before_year (y + 1) = y * 365 + (p4 + i4) - (p100 + i100) + (p400 + i400)"
    by (simp add: days_before_year_def a b c)
  moreover have "days_before_year y = (y - 1) * 365 + p4 - p100 + p400"
    by (simp add: days_before_year_def Let_def p4_def p100_def p400_def)
  ultimately have "days_before_year (y + 1) = days_before_year y + 365 + (i4 - i100 + i400)"
    by (simp add: algebra_simps)
  with l show ?thesis
    by simp
qed

lemma days_before_year_mono: "y1 \<le> y2 \<Longrightarrow> days_before_year y1 \<le> days_before_year y2"
proof (induction y2 rule: int_ge_induct)
  case base
  show ?case by simp
next
  case (step i)
  then show ?case
    using days_before_year_step [of i] by (simp split: if_splits)
qed

lemma days_before_month_step:
  assumes "1 \<le> m" "m \<le> 11"
  shows "days_before_month y (m + 1) = days_before_month y m + days_in_month y m"
proof -
  from assms have "m = 1 \<or> m = 2 \<or> m = 3 \<or> m = 4 \<or> m = 5 \<or> m = 6 \<or> m = 7 \<or> m = 8
      \<or> m = 9 \<or> m = 10 \<or> m = 11"
    by arith
  then show ?thesis
    by (elim disjE) (simp_all add: days_before_month_def days_in_month_def DAYS_IN_MONTH_def)
qed

lemma days_in_month_pos: "0 < days_in_month y m"
  by (simp add: days_in_month_def)

lemma days_before_month_mono:
  "m1 < m2 \<Longrightarrow> 1 \<le> m1 \<Longrightarrow> m2 \<le> 12
   \<Longrightarrow> days_before_month y m1 + days_in_month y m1 \<le> days_before_month y m2"
proof (induction m2 rule: int_gr_induct)
  case base
  then show ?case by (simp add: days_before_month_step)
next
  case (step i)
  then have "days_before_month y m1 + days_in_month y m1 \<le> days_before_month y i"
    by simp
  moreover have "days_before_month y (i + 1) = days_before_month y i + days_in_month y i"
    using step by (intro days_before_month_step) auto
  ultimately show ?case
    using days_in_month_pos [of y i] by simp
qed

lemma days_before_month_12: "days_before_month y 12 + 31 = 365 + (if is_leap y then 1 else 0)"
  by (simp add: days_before_month_def DAYS_IN_MONTH_def)

lemma day_of_year_le:
  assumes "valid_date d"
  shows "days_before_month (year d) (month d) + day d
           \<le> 365 + (if is_leap (year d) then 1 else 0)"
proof (cases "month d = 12")
  case True
  with assms have "day d \<le> 31"
    by (simp add: valid_date_def days_in_month_def)
  with True days_before_month_12 [of "year d"] show ?thesis
    by simp
next
  case False
  with assms have "days_before_month (year d) (month d) + days_in_month (year d) (month d)
      \<le> days_before_month (year d) 12"
    by (intro days_before_month_mono) (auto simp: valid_date_def)
  moreover from assms have "day d \<le> days_in_month (year d) (month d)"
    by (simp add: valid_date_def)
  ultimately show ?thesis
    using days_before_month_12 [of "year d"] by simp
qed

lemma days_before_month_nonneg: "0 \<le> days_before_month y m"
proof -
  have "0 \<le> sum_list (take n DAYS_IN_MONTH)" for n
    by (rule sum_list_nonneg) (auto simp: DAYS_IN_MONTH_def dest!: in_set_takeD)
  then show ?thesis
    by (simp add: days_before_month_def)
qed

lemma toordinal_less:
  assumes "valid_date a" "valid_date b" "date_before a b"
  shows "toordinal a < toordinal b"
proof -
  consider (y) "year a < year b"
    | (m) "year a = year b" "month a < month b"
    | (d) "year a = year b" "month a = month b" "day a < day b"
    using assms(3) by (auto simp: date_before_def)
  then show ?thesis
  proof cases
    case y
    have "toordinal a \<le> days_before_year (year a + 1)"
      using day_of_year_le [OF assms(1)] days_before_year_step [of "year a"]
      by (simp add: toordinal_def)
    also have "\<dots> \<le> days_before_year (year b)"
      using y by (intro days_before_year_mono) simp
    also have "\<dots> < toordinal b"
      using assms(2) days_before_month_nonneg [of "year b" "month b"]
      by (simp add: toordinal_def valid_date_def)
    finally show ?thesis .
  next
    case m
    have "days_before_month (year a) (month a) + days_in_month (year a) (month a)
        \<le> days_before_month (year a) (month b)"
      using assms(1,2) m by (intro days_before_month_mono) (auto simp: valid_date_def)
    then show ?thesis
      using assms(1,2) m by (simp add: toordinal_def valid_date_def)
  next
    case d
    then show ?thesis by (simp add: toordinal_def)
  qed
qed

lemma toordinal_order:
  assumes "valid_date a" "valid_date b"
  shows "toordinal a < toordinal b \<longleftrightarrow> date_before a b"
proof
  assume "date_before a b"
  with assms show "toordinal a < toordinal b" by (rule toordinal_less)
next
  assume lt: "toordinal a < toordinal b"
  show "date_before a b"
  proof (rule ccontr)
    assume "\<not> date_before a b"
    then have "date_before b a \<or> (year a = year b \<and> month a = month b \<and> day a = day b)"
      by (auto simp: date_before_def)
    then show False
    proof
      assume "date_before b a"
      with assms have "toordinal b < toordinal a" by (intro toordinal_less)
      with lt show False by simp
    next
      assume "year a = year b \<and> month a = month b \<and> day a = day b"
      then have "toordinal a = toordinal b" by (simp add: toordinal_def)
      with lt show False by simp
    qed
  qed
qed

lemma deadline_in_future_iff:
  assumes "valid_date (date fm)" "valid_date (today e)"
  shows "0 < days (date_sub (date fm) (today e)) \<longleftrightarrow> date_before (today e) (date fm)"
  using toordinal_order [OF assms(2) assms(1)] by (simp add: days_date_sub)

subsection \<open>The submit handler, case by case\<close>

text \<open>The three ways a submission can go.\<close>

lemma handler_past:
  "toordinal (date fm) - toordinal (today e) \<le> 0
   \<Longrightarrow> submit_handler e fm = ([SidebarError DEADLINE_ERROR], Inr ())"
  by (simp add: submit_handler_def days_date_sub)

lemma handler_raises:
  "0 < toordinal (date fm) - toordinal (today e)
   \<Longrightarrow> extract_text_from_file e (uploaded_file fm) = (evs, Inl x)
   \<Longrightarrow> submit_handler e fm = (evs, Inl x)"
  by (simp add: submit_handler_def days_date_sub)

lemma handler_future:
  assumes "0 < toordinal (date fm) - toordinal (today e)"
    and "extract_text_from_file e (uploaded_file fm) = (evs, Inr text)"
  shows "\<exists>shown.
     submit_handler e fm =
       (evs @ (if strip text \<noteq> [] then [SidebarSuccess SYLLABUS_LOADED] else [])
          @ [Spinner (spinner_text (toordinal (date fm) - toordinal (today e))),
             Kickoff (plan_inputs e fm
                        (if strip text \<noteq> [] then take 15000 text else NO_SYLLABUS))]
          @ shown, Inr ())
     \<and> llm_calls shown = [] \<and> (\<forall>m. SidebarError m \<notin> set shown)"
  using assms
  by (simp add: submit_handler_def days_date_sub plan_inputs_def Let_def display_results_def
      split: sum.split)

lemma handler_calls_once:
  assumes "0 < toordinal (date fm) - toordinal (today e)"
    and "extract_text_from_file e (uploaded_file fm) = (evs, Inr text)"
  shows "llm_calls (fst (submit_handler e fm)) =
     [plan_inputs e fm (if strip text \<noteq> [] then take 15000 text else NO_SYLLABUS)]"
proof -
  have "llm_calls evs = []"
    using llm_calls_extract [of e "uploaded_file fm"] assms(2) by simp
  with handler_future [OF assms] show ?thesis
    by (auto simp: llm_calls_append)
qed

lemma handler_no_call_unless_extracted:
  assumes "toordinal (date fm) - toordinal (today e) \<le> 0
           \<or> (\<exists>x. snd (extract_text_from_file e (uploaded_file fm)) = Inl x)"
  shows "llm_calls (fst (submit_handler e fm)) = []"
proof (cases "toordinal (date fm) - toordinal (today e) \<le> 0")
  case True
  then show ?thesis by (simp add: handler_past)
next
  case False
  with assms obtain x where "snd (extract_text_from_file e (uploaded_file fm)) = Inl x"
    by blast
  then obtain evs where ex: "extract_text_from_file e (uploaded_file fm) = (evs, Inl x)"
    by (cases "extract_text_from_file e (uploaded_file fm)") simp
  then have "llm_calls evs = []"
    using llm_calls_extract [of e "uploaded_file fm"] by simp
  with False ex show ?thesis by (simp add: handler_raises)
qed

text \<open>Facts about the example runs.\<close>

lemma days_future_ex: "toordinal deadline_ex - toordinal today_ex = 51"
  by code_simp

lemma str_int_51: "str_int 51 = ascii ''51''"
  by code_simp

lemma bad_txt_raises:
  "extract_text_from_file e (Some bad_txt_ex) = ([GetValue bad_txt_ex], Inl UnicodeDecodeError)"
  by (simp add: extract_text_from_file_def bad_txt_ex_def endswith_def ascii_def decode_utf8_def)

lemma pdf_ex_extracted:
  "extract_text_from_file env_ex (Some pdf_file_ex) =
     ([PdfplumberOpen pdf_file_ex, StError (ascii ''Error reading PDF: bad page'')],
      Inr (ascii ''Unit 1'' @ [10]))"
  by (simp add: extract_text_from_file_def pdf_file_ex_def env_ex_def pdf_ex_def endswith_def
      ascii_def)

lemma long_pdf_extracted:
  "extract_text_from_file long_env_ex (Some pdf_file_ex) =
     ([PdfplumberOpen pdf_file_ex], Inr (replicate 20000 97 @ [10]))"
  by (simp add: extract_text_from_file_def pdf_file_ex_def long_env_ex_def long_pdf_ex_def
      endswith_def ascii_def)

lemma blank_txt_extracted:
  "extract_text_from_file e (Some blank_txt_ex) = ([GetValue blank_txt_ex], Inr [32, 10, 9])"
  by (simp add: extract_text_from_file_def blank_txt_ex_def endswith_def ascii_def
      decode_utf8_def prepend_def)

section \<open>Properties of extract_text_from_file\<close>

text \<open>
  C9. When no file is uploaded (the argument is \<open>None\<close>), \<open>extract_text_from_file\<close>
  returns the empty string, and has no effect.
\<close>

theorem extract_none_empty: "extract_text_from_file e None = ([], Inr [])"
  by (simp add: extract_text_from_file_def)

text \<open>
  C10. The dispatch on the extension is a case-sensitive suffix match: for an uploaded
  file whose name ends with neither \<open>.pdf\<close> nor \<open>.txt\<close> in lower case, the function
  returns the empty string, and nothing is read from the file (the trace is empty). The
  example is a file named \<open>SYLLABUS.PDF\<close>.
\<close>

theorem extract_other_suffix_empty:
  "\<not> endswith (name f) (ascii ''.pdf'') \<Longrightarrow> \<not> endswith (name f) (ascii ''.txt'')
   \<Longrightarrow> extract_text_from_file e (Some f) = ([], Inr [])"
  by (simp add: extract_text_from_file_def)

theorem extract_other_suffix_empty_witness:
  "\<not> endswith (name upper_pdf_ex) (ascii ''.pdf'')
   \<and> \<not> endswith (name upper_pdf_ex) (ascii ''.txt'')
   \<and> getvalue upper_pdf_ex \<noteq> []
   \<and> extract_text_from_file env_ex (Some upper_pdf_ex) = ([], Inr [])"
proof -
  have a: "\<not> endswith (name upper_pdf_ex) (ascii ''.pdf'')"
    by (simp add: upper_pdf_ex_def endswith_def ascii_def)
  have b: "\<not> endswith (name upper_pdf_ex) (ascii ''.txt'')"
    by (simp add: upper_pdf_ex_def endswith_def ascii_def)
  have c: "getvalue upper_pdf_ex \<noteq> []"
    by (simp add: upper_pdf_ex_def)
  from a b c extract_other_suffix_empty [OF a b, of env_ex] show ?thesis by simp
qed

text \<open>
  C5. For every uploaded file whose name ends with \<open>.txt\<close>, \<open>extract_text_from_file\<close>
  should return the file's bytes decoded as UTF-8. It does not for a file that is not
  UTF-8: \<open>cafe.txt\<close> holds the word with its last letter as the Latin-1 byte \<open>0xE9\<close>,
  the \<open>decode\<close> raises \<open>UnicodeDecodeError\<close>, and no string is returned.
\<close>

theorem extract_txt_latin1_raises:
  "endswith (name latin1_txt_ex) (ascii ''.txt'')
   \<and> getvalue latin1_txt_ex = [0x63, 0x61, 0x66, 0xE9]
   \<and> decode_utf8 (getvalue latin1_txt_ex) = Inl UnicodeDecodeError
   \<and> extract_text_from_file env_ex (Some latin1_txt_ex)
       = ([GetValue latin1_txt_ex], Inl UnicodeDecodeError)"
  by (simp add: extract_text_from_file_def latin1_txt_ex_def endswith_def ascii_def
      decode_utf8_def prepend_def)

text \<open>
  What the \<open>.txt\<close> branch does in general: it reads the bytes, and its outcome is the
  decoder's. So wherever the bytes are well-formed UTF-8 the decoded string is returned.
\<close>

lemma extract_txt_decodes:
  "endswith (name f) (ascii ''.txt'')
   \<Longrightarrow> extract_text_from_file e (Some f) = ([GetValue f], decode_utf8 (getvalue f))"
  by (simp add: extract_text_from_file_def txt_not_pdf)

lemma extract_txt_returns_decoded:
  "endswith (name f) (ascii ''.txt'') \<Longrightarrow> decode_utf8 (getvalue f) = Inr t
   \<Longrightarrow> extract_text_from_file e (Some f) = ([GetValue f], Inr t)"
  by (simp add: extract_txt_decodes)

lemma extract_txt_ex:
  "extract_text_from_file env_ex (Some txt_ex) = ([GetValue txt_ex], Inr [0x68, 0x69, 0xE9])"
proof -
  have a: "endswith (name txt_ex) (ascii ''.txt'')"
    by (simp add: txt_ex_def endswith_def ascii_def)
  have b: "decode_utf8 (getvalue txt_ex) = Inr [0x68, 0x69, 0xE9]"
    by (simp add: txt_ex_def decode_utf8_def prepend_def continuation_def)
  from a b show ?thesis by (rule extract_txt_returns_decoded)
qed

text \<open>
  C6. For an uploaded file whose name ends with \<open>.pdf\<close> and that the PDF
  library opens without error, \<open>extract_text_from_file\<close> returns the concatenation, in
  page order, of each page's extracted text followed by a newline, skipping pages whose
  extraction yields no text, over the pages before the first page whose extraction
  raises (over all pages when none raises).
\<close>

theorem extract_pdf_joined_prefix:
  "endswith (name f) (ascii ''.pdf'') \<Longrightarrow> pdfplumber_open e f = Inr doc
   \<Longrightarrow> snd (extract_text_from_file e (Some f))
       = Inr (joined_text (takeWhile returned (pages doc)))"
  by (simp add: extract_text_from_file_def pages_loop_acc split: option.split)

theorem extract_pdf_joined_prefix_witness:
  "endswith (name pdf_file_ex) (ascii ''.pdf'')
   \<and> pdfplumber_open env_ex pdf_file_ex = Inr pdf_ex
   \<and> joined_text (takeWhile returned (pages pdf_ex)) = ascii ''Unit 1'' @ [10]
   \<and> snd (extract_text_from_file env_ex (Some pdf_file_ex)) = Inr (ascii ''Unit 1'' @ [10])"
proof -
  have a: "endswith (name pdf_file_ex) (ascii ''.pdf'')"
    by (simp add: pdf_file_ex_def endswith_def ascii_def)
  have b: "pdfplumber_open env_ex pdf_file_ex = Inr pdf_ex"
    by (simp add: env_ex_def)
  have c: "joined_text (takeWhile returned (pages pdf_ex)) = ascii ''Unit 1'' @ [10]"
    by (simp add: pdf_ex_def joined_text_def returned_def page_line_def ascii_def)
  from a b c extract_pdf_joined_prefix [OF a b] show ?thesis by simp
qed

text \<open>
  C6 with the concatenation taken over all pages does not hold: here the file opens,
  the second page raises, and the text of the third page is missing from the result.
\<close>

theorem extract_pdf_all_pages_counterexample:
  "endswith (name pdf_file_ex) (ascii ''.pdf'')
   \<and> pdfplumber_open env_ex pdf_file_ex = Inr pdf_ex
   \<and> joined_text (pages pdf_ex) = ascii ''Unit 1'' @ [10] @ ascii ''Unit 3'' @ [10]
   \<and> snd (extract_text_from_file env_ex (Some pdf_file_ex)) = Inr (ascii ''Unit 1'' @ [10])
   \<and> snd (extract_text_from_file env_ex (Some pdf_file_ex)) \<noteq> Inr (joined_text (pages pdf_ex))"
proof -
  have a: "endswith (name pdf_file_ex) (ascii ''.pdf'')"
    by (simp add: pdf_file_ex_def endswith_def ascii_def)
  have b: "pdfplumber_open env_ex pdf_file_ex = Inr pdf_ex"
    by (simp add: env_ex_def)
  have c: "joined_text (pages pdf_ex) = ascii ''Unit 1'' @ [10] @ ascii ''Unit 3'' @ [10]"
    by (simp add: pdf_ex_def joined_text_def page_line_def ascii_def)
  have d: "snd (extract_text_from_file env_ex (Some pdf_file_ex)) = Inr (ascii ''Unit 1'' @ [10])"
    by (simp add: pdf_ex_extracted)
  have e: "ascii ''Unit 1'' @ [10] \<noteq> ascii ''Unit 1'' @ [10] @ ascii ''Unit 3'' @ [10]"
    by (simp add: ascii_def)
  from a b c d e show ?thesis by simp
qed

text \<open>
  C7. \<open>extract_text_from_file\<close> should return a string for every input. It does not:
  for a \<open>.txt\<close> file whose bytes are not valid UTF-8 (here the single byte \<open>0xFF\<close>)
  the \<open>decode\<close> raises \<open>UnicodeDecodeError\<close>, and nothing catches it.
\<close>

theorem extract_invalid_utf8_raises:
  "endswith (name bad_txt_ex) (ascii ''.txt'')
   \<and> extract_text_from_file env_ex (Some bad_txt_ex)
       = ([GetValue bad_txt_ex], Inl UnicodeDecodeError)"
  by (simp add: bad_txt_raises) (simp add: bad_txt_ex_def endswith_def ascii_def)

text \<open>Outside the \<open>.txt\<close> branch the function always returns.\<close>

lemma extract_returns_unless_txt:
  "u = None \<or> (\<exists>f. u = Some f \<and> \<not> endswith (name f) (ascii ''.txt''))
   \<Longrightarrow> \<exists>text. snd (extract_text_from_file e u) = Inr text"
  by (auto simp: extract_text_from_file_def split: option.split sum.split prod.split)

section \<open>Properties of the submit handler\<close>

text \<open>
  C1. Every submission validates that the deadline is in the future. When
  \<open>(date - today).days \<le> 0\<close> the run shows the error in the sidebar and does nothing
  else: no file is read and no LLM call is made. When \<open>(date - today).days > 0\<close> the
  error is not shown and the run goes on to generate the plan: it starts with the text
  extraction, and once the extraction has returned it calls the LLM.
\<close>

theorem submit_validates_deadline:
  "(days (date_sub (date fm) (today e)) \<le> 0 \<longrightarrow>
      submit_handler e fm = ([SidebarError DEADLINE_ERROR], Inr ())
      \<and> filter reads_file (fst (submit_handler e fm)) = []
      \<and> llm_calls (fst (submit_handler e fm)) = [])
   \<and> (0 < days (date_sub (date fm) (today e)) \<longrightarrow>
      SidebarError DEADLINE_ERROR \<notin> set (fst (submit_handler e fm))
      \<and> (\<exists>rest. fst (submit_handler e fm)
            = fst (extract_text_from_file e (uploaded_file fm)) @ rest)
      \<and> (\<forall>text. snd (extract_text_from_file e (uploaded_file fm)) = Inr text
            \<longrightarrow> length (llm_calls (fst (submit_handler e fm))) = 1))"
proof (intro conjI impI allI)
  assume "days (date_sub (date fm) (today e)) \<le> 0"
  then have p: "submit_handler e fm = ([SidebarError DEADLINE_ERROR], Inr ())"
    by (simp add: handler_past days_date_sub)
  show "submit_handler e fm = ([SidebarError DEADLINE_ERROR], Inr ())" by (rule p)
  show "filter reads_file (fst (submit_handler e fm)) = []" by (simp add: p)
  show "llm_calls (fst (submit_handler e fm)) = []" by (simp add: p)
next
  assume "0 < days (date_sub (date fm) (today e))"
  then have pos: "0 < toordinal (date fm) - toordinal (today e)"
    by (simp add: days_date_sub)
  obtain evs r where ex: "extract_text_from_file e (uploaded_file fm) = (evs, r)"
    by (cases "extract_text_from_file e (uploaded_file fm)")
  have evs: "SidebarError DEADLINE_ERROR \<notin> set evs"
    using no_sidebar_error_extract [of DEADLINE_ERROR e "uploaded_file fm"] ex by simp
  show "SidebarError DEADLINE_ERROR \<notin> set (fst (submit_handler e fm))"
  proof (cases r)
    case (Inl x)
    with pos ex evs show ?thesis by (simp add: handler_raises)
  next
    case (Inr t)
    with handler_future [OF pos] ex evs show ?thesis by auto
  qed
  show "\<exists>rest. fst (submit_handler e fm)
          = fst (extract_text_from_file e (uploaded_file fm)) @ rest"
  proof (cases r)
    case (Inl x)
    with pos ex show ?thesis by (simp add: handler_raises)
  next
    case (Inr t)
    with handler_future [OF pos] ex show ?thesis by auto
  qed
  fix t
  assume "snd (extract_text_from_file e (uploaded_file fm)) = Inr t"
  with ex have "extract_text_from_file e (uploaded_file fm) = (evs, Inr t)" by simp
  from handler_calls_once [OF pos this]
  show "length (llm_calls (fst (submit_handler e fm))) = 1" by simp
qed

theorem submit_validates_deadline_witness:
  "days (date_sub (date same_day_form_ex) (today env_ex)) \<le> 0
   \<and> submit_handler env_ex same_day_form_ex = ([SidebarError DEADLINE_ERROR], Inr ())
   \<and> 0 < days (date_sub (date future_form_ex) (today env_ex))
   \<and> SidebarError DEADLINE_ERROR \<notin> set (fst (submit_handler env_ex future_form_ex))
   \<and> length (llm_calls (fst (submit_handler env_ex future_form_ex))) = 1"
proof -
  have a: "days (date_sub (date same_day_form_ex) (today env_ex)) \<le> 0"
    by (simp add: days_date_sub same_day_form_ex_def env_ex_def)
  have b: "0 < days (date_sub (date future_form_ex) (today env_ex))"
    by (simp add: days_date_sub future_form_ex_def env_ex_def days_future_ex)
  have c: "snd (extract_text_from_file env_ex (uploaded_file future_form_ex)) = Inr []"
    by (simp add: future_form_ex_def extract_text_from_file_def)
  from a b c submit_validates_deadline [of same_day_form_ex env_ex]
    submit_validates_deadline [of future_form_ex env_ex]
  show ?thesis by simp
qed

text \<open>
  C2. The number of days available for the plan is the signed difference, in days,
  between the deadline and today, \<open>(date - today).days\<close>, that is, the difference of the
  two dates' ordinals. This value is the one compared with zero (the error is shown
  exactly when it is not positive), and its string form is the \<open>days_left\<close> of every
  LLM call of the run.
\<close>

theorem days_remaining_is_date_difference:
  "days (date_sub (date fm) (today e)) = toordinal (date fm) - toordinal (today e)
   \<and> (SidebarError DEADLINE_ERROR \<in> set (fst (submit_handler e fm))
        \<longleftrightarrow> toordinal (date fm) - toordinal (today e) \<le> 0)
   \<and> (\<forall>i \<in> set (llm_calls (fst (submit_handler e fm))).
        days_left i = str_int (toordinal (date fm) - toordinal (today e)))"
proof (intro conjI)
  show "days (date_sub (date fm) (today e)) = toordinal (date fm) - toordinal (today e)"
    by (rule days_date_sub)
  obtain evs r where ex: "extract_text_from_file e (uploaded_file fm) = (evs, r)"
    by (cases "extract_text_from_file e (uploaded_file fm)")
  have evs: "SidebarError DEADLINE_ERROR \<notin> set evs"
    using no_sidebar_error_extract [of DEADLINE_ERROR e "uploaded_file fm"] ex by simp
  show "SidebarError DEADLINE_ERROR \<in> set (fst (submit_handler e fm))
        \<longleftrightarrow> toordinal (date fm) - toordinal (today e) \<le> 0"
  proof (cases "toordinal (date fm) - toordinal (today e) \<le> 0")
    case True
    then show ?thesis by (simp add: handler_past)
  next
    case False
    then have pos: "0 < toordinal (date fm) - toordinal (today e)" by simp
    have "SidebarError DEADLINE_ERROR \<notin> set (fst (submit_handler e fm))"
    proof (cases r)
      case (Inl x)
      with pos ex evs show ?thesis by (simp add: handler_raises)
    next
      case (Inr t)
      with handler_future [OF pos] ex evs show ?thesis by auto
    qed
    with False show ?thesis by simp
  qed
  show "\<forall>i \<in> set (llm_calls (fst (submit_handler e fm))).
          days_left i = str_int (toordinal (date fm) - toordinal (today e))"
  proof (cases "0 < toordinal (date fm) - toordinal (today e)")
    case False
    then show ?thesis by (simp add: handler_no_call_unless_extracted)
  next
    case True
    show ?thesis
    proof (cases r)
      case (Inl x)
      with ex show ?thesis by (simp add: handler_no_call_unless_extracted)
    next
      case (Inr t)
      with handler_calls_once [OF True] ex show ?thesis by (simp add: plan_inputs_def)
    qed
  qed
qed

theorem days_remaining_is_date_difference_witness:
  "days (date_sub (date future_form_ex) (today env_ex)) = 51
   \<and> SidebarError DEADLINE_ERROR \<notin> set (fst (submit_handler env_ex future_form_ex))
   \<and> map days_left (llm_calls (fst (submit_handler env_ex future_form_ex))) = [ascii ''51'']"
proof -
  have d: "toordinal (date future_form_ex) - toordinal (today env_ex) = 51"
    by (simp add: future_form_ex_def env_ex_def days_future_ex)
  have x: "extract_text_from_file env_ex (uploaded_file future_form_ex) = ([], Inr [])"
    by (simp add: future_form_ex_def extract_text_from_file_def)
  have "0 < toordinal (date future_form_ex) - toordinal (today env_ex)"
    by (simp add: d)
  from handler_calls_once [OF this x]
  have one: "\<exists>i. llm_calls (fst (submit_handler env_ex future_form_ex)) = [i]" by simp
  from days_remaining_is_date_difference [of future_form_ex env_ex] d one str_int_51
  show ?thesis by auto
qed

text \<open>
  C3. When the extracted syllabus text is not empty after stripping whitespace, the
  syllabus content forwarded to the LLM is exactly the first 15000 characters of the
  extracted text, and so has at most 15000 characters. (With a deadline that is not in
  the future nothing is forwarded.)
\<close>

theorem syllabus_truncated:
  assumes "extract_text_from_file e (uploaded_file fm) = (evs, Inr t)"
    and "strip t \<noteq> []"
  shows "map syllabus_text (llm_calls (fst (submit_handler e fm)))
           = (if 0 < days (date_sub (date fm) (today e)) then [take 15000 t] else [])
         \<and> length (take 15000 t) \<le> 15000"
proof (cases "0 < toordinal (date fm) - toordinal (today e)")
  case True
  from handler_calls_once [OF True assms(1)] assms(2) True
  show ?thesis by (simp add: plan_inputs_def days_date_sub)
next
  case False
  then have "llm_calls (fst (submit_handler e fm)) = []"
    by (simp add: handler_no_call_unless_extracted)
  with False show ?thesis by (simp add: days_date_sub)
qed

theorem syllabus_truncated_witness:
  "extract_text_from_file long_env_ex (uploaded_file pdf_form_ex)
     = ([PdfplumberOpen pdf_file_ex], Inr (replicate 20000 97 @ [10]))
   \<and> strip (replicate 20000 97 @ [10]) \<noteq> []
   \<and> map syllabus_text (llm_calls (fst (submit_handler long_env_ex pdf_form_ex)))
       = [replicate 15000 97]"
proof -
  have a: "extract_text_from_file long_env_ex (uploaded_file pdf_form_ex)
             = ([PdfplumberOpen pdf_file_ex], Inr (replicate 20000 97 @ [10]))"
    by (simp add: pdf_form_ex_def long_pdf_extracted)
  have b: "strip (replicate 20000 97 @ [10]) \<noteq> []"
    by (simp add: strip_empty_iff isspace_def)
  have c: "0 < days (date_sub (date pdf_form_ex) (today long_env_ex))"
    by (simp add: days_date_sub pdf_form_ex_def long_env_ex_def days_future_ex)
  from a b c syllabus_truncated [OF a b] show ?thesis by simp
qed

text \<open>
  C4. For a submission with a future deadline where no file is uploaded, or where the
  extracted text is empty after stripping whitespace, the syllabus content forwarded to
  the LLM is the fixed fallback string.
\<close>

theorem fallback_when_no_syllabus:
  assumes "0 < days (date_sub (date fm) (today e))"
    and "uploaded_file fm = None
         \<or> (\<exists>evs t. extract_text_from_file e (uploaded_file fm) = (evs, Inr t) \<and> strip t = [])"
  shows "map syllabus_text (llm_calls (fst (submit_handler e fm))) = [NO_SYLLABUS]"
proof -
  from assms(2) obtain evs t
    where x: "extract_text_from_file e (uploaded_file fm) = (evs, Inr t)" and s: "strip t = []"
  proof
    assume "uploaded_file fm = None"
    then have "extract_text_from_file e (uploaded_file fm) = ([], Inr [])"
      by (simp add: extract_text_from_file_def)
    moreover have "strip [] = []"
      by (simp add: strip_empty_iff)
    ultimately show ?thesis by (rule that)
  next
    assume "\<exists>evs t. extract_text_from_file e (uploaded_file fm) = (evs, Inr t) \<and> strip t = []"
    then show ?thesis using that by blast
  qed
  from assms(1) have pos: "0 < toordinal (date fm) - toordinal (today e)"
    by (simp add: days_date_sub)
  from handler_calls_once [OF pos x] s show ?thesis
    by (simp add: plan_inputs_def)
qed

theorem fallback_when_no_syllabus_witness:
  "0 < days (date_sub (date future_form_ex) (today env_ex))
   \<and> uploaded_file future_form_ex = None
   \<and> map syllabus_text (llm_calls (fst (submit_handler env_ex future_form_ex))) = [NO_SYLLABUS]
   \<and> 0 < days (date_sub (date blank_form_ex) (today env_ex))
   \<and> extract_text_from_file env_ex (uploaded_file blank_form_ex)
       = ([GetValue blank_txt_ex], Inr [32, 10, 9])
   \<and> strip [32, 10, 9] = []
   \<and> map syllabus_text (llm_calls (fst (submit_handler env_ex blank_form_ex))) = [NO_SYLLABUS]"
proof -
  have a: "0 < days (date_sub (date future_form_ex) (today env_ex))"
    by (simp add: days_date_sub future_form_ex_def env_ex_def days_future_ex)
  have b: "uploaded_file future_form_ex = None"
    by (simp add: future_form_ex_def)
  have c: "0 < days (date_sub (date blank_form_ex) (today env_ex))"
    by (simp add: days_date_sub blank_form_ex_def env_ex_def days_future_ex)
  have d: "extract_text_from_file env_ex (uploaded_file blank_form_ex)
             = ([GetValue blank_txt_ex], Inr [32, 10, 9])"
    by (simp add: blank_form_ex_def blank_txt_extracted)
  have s: "strip [32, 10, 9] = []"
    by (simp add: strip_empty_iff isspace_def)
  from b have b': "uploaded_file future_form_ex = None
      \<or> (\<exists>evs t. extract_text_from_file env_ex (uploaded_file future_form_ex) = (evs, Inr t)
            \<and> strip t = [])"
    by simp
  from d s have d': "uploaded_file blank_form_ex = None
      \<or> (\<exists>evs t. extract_text_from_file env_ex (uploaded_file blank_form_ex) = (evs, Inr t)
            \<and> strip t = [])"
    by blast
  from a b c d s fallback_when_no_syllabus [OF a b'] fallback_when_no_syllabus [OF c d']
  show ?thesis by simp
qed

text \<open>
  C8. Every submission with a future deadline should make exactly one LLM call, with
  the subject, the two dates, the number of days and the syllabus content as its
  inputs. It does not when the upload is a \<open>.txt\<close> file that is not valid UTF-8: the
  deadline is 51 days ahead, the extraction raises, the run ends there and no call is
  made.
\<close>

theorem submit_invalid_utf8_no_llm_call:
  "0 < days (date_sub (date bad_form_ex) (today env_ex))
   \<and> submit_handler env_ex bad_form_ex = ([GetValue bad_txt_ex], Inl UnicodeDecodeError)
   \<and> llm_calls (fst (submit_handler env_ex bad_form_ex)) = []"
proof -
  have pos: "0 < toordinal (date bad_form_ex) - toordinal (today env_ex)"
    by (simp add: bad_form_ex_def env_ex_def days_future_ex)
  have x: "extract_text_from_file env_ex (uploaded_file bad_form_ex)
             = ([GetValue bad_txt_ex], Inl UnicodeDecodeError)"
    by (simp add: bad_form_ex_def bad_txt_raises)
  from handler_raises [OF pos x] pos show ?thesis by (simp add: days_date_sub)
qed

text \<open>
  Whenever the extraction returns, the run with a future deadline makes exactly one
  call, with the inputs built from the form, today's date and the syllabus content.
\<close>

lemma submit_calls_llm_once:
  assumes "0 < days (date_sub (date fm) (today e))"
    and "extract_text_from_file e (uploaded_file fm) = (evs, Inr t)"
  shows "llm_calls (fst (submit_handler e fm)) =
     [\<lparr>subject = sub fm, deadline = str_date (date fm), current_date = str_date (today e),
       days_left = str_int (days (date_sub (date fm) (today e))),
       syllabus_text = (if strip t = [] then NO_SYLLABUS else take 15000 t)\<rparr>]"
proof -
  from assms(1) have pos: "0 < toordinal (date fm) - toordinal (today e)"
    by (simp add: days_date_sub)
  from handler_calls_once [OF pos assms(2)] show ?thesis
    by (simp add: plan_inputs_def days_date_sub)
qed


end
